theory Spec2Isabelle
  imports Complex_Main
begin

section \<open>Numeric model\<close>

text \<open>
  The source is \<^verbatim>\<open>OPqkdsim/channel.py\<close>, class \<^verbatim>\<open>QuantumChannel\<close>.
  Python floats are modelled as reals and numpy complex values as complex numbers.
  Inside numpy and scipy the arithmetic is exact: rounding, overflow to infinity and NaN
  of the array operations are outside the model. Python's own float operations are
  modelled where a double decides what the program does next: the quotient of line 94,
  which \<^verbatim>\<open>int()\<close> turns into the number of iterations, is rounded to the nearest
  double, and the two float powers (lines 41 and 113) raise above the range of the
  doubles and give \<^verbatim>\<open>0.0\<close> below it.
  One-dimensional numpy arrays are lists. A raise of the source or of a numpy or scipy
  call it makes is a branch \<open>Inl e\<close> of the result; running out of memory is not modelled.
\<close>

datatype error = ZeroDivisionError | ValueError | IndexError | OverflowError

text \<open>
  \<^verbatim>\<open>int(x)\<close> on a float truncates towards zero.
\<close>

definition py_int :: "real \<Rightarrow> int" where
  "py_int x = (if 0 \<le> x then \<lfloor>x\<rfloor> else \<lceil>x\<rceil>)"

text \<open>
  The range of the doubles. A real of magnitude \<open>float_top\<close> or more rounds to an
  infinity, one of magnitude \<open>float_tiny\<close> or less rounds to zero.
\<close>

definition float_top :: real where
  "float_top = 2 ^ 1024 - 2 ^ 970"

definition float_tiny :: real where
  "float_tiny = 1 / 2 ^ 1075"

text \<open>
  Rounding to the nearest double, ties to even: the real is scaled by the spacing of the
  doubles around it (\<open>2 powr (e - 52)\<close> for a magnitude from \<open>2 powr e\<close> up to
  \<open>2 powr (e + 1)\<close>, the spacing of the subnormals below \<open>2 powr (- 1022)\<close>) and rounded
  to an integer. A float division of two doubles is the rounding of their exact quotient.
\<close>

definition round_half_even :: "real \<Rightarrow> int" where
  "round_half_even r =
     (if r - of_int \<lfloor>r\<rfloor> < 1 / 2 then \<lfloor>r\<rfloor>
      else if 1 / 2 < r - of_int \<lfloor>r\<rfloor> then \<lfloor>r\<rfloor> + 1
      else if even \<lfloor>r\<rfloor> then \<lfloor>r\<rfloor> else \<lfloor>r\<rfloor> + 1)"

definition spacing :: "real \<Rightarrow> real" where
  "spacing x = 2 powr (of_int (max \<lfloor>log 2 \<bar>x\<bar>\<rfloor> (- 1022)) - 52)"

definition fl :: "real \<Rightarrow> real" where
  "fl x = (if x = 0 then 0 else of_int (round_half_even (x / spacing x)) * spacing x)"

text \<open>
  The result of the C library's \<^verbatim>\<open>pow\<close> as Python hands it on: an overflow raises
  \<^verbatim>\<open>OverflowError\<close>, an underflow is \<^verbatim>\<open>0.0\<close>; within the range the power is exact.
\<close>

definition float_range :: "real \<Rightarrow> error + real" where
  "float_range r =
     (if float_top \<le> \<bar>r\<bar> then Inl OverflowError
      else if \<bar>r\<bar> \<le> float_tiny then Inr 0
      else Inr r)"

text \<open>
  \<^verbatim>\<open>b ** x\<close> on floats with \<open>0 \<le> b\<close>: \<^verbatim>\<open>b ** 0\<close> is \<^verbatim>\<open>1.0\<close>, \<^verbatim>\<open>0.0 ** x\<close> raises for a
  negative \<open>x\<close> and is \<^verbatim>\<open>0.0\<close> for a positive one, anything else goes to \<^verbatim>\<open>pow\<close>.
\<close>

definition float_pow :: "real \<Rightarrow> real \<Rightarrow> error + real" where
  "float_pow b x =
     (if x = 0 then Inr 1
      else if b = 0 then (if x < 0 then Inl ZeroDivisionError else Inr 0)
      else float_range (b powr x))"

text \<open>
  \<^verbatim>\<open>b ** x\<close> on floats in general: a negative base is replaced by its magnitude and the
  sign is restored for an odd integer exponent; with an exponent that is not an integer
  the result is the complex power \<open>|b|\<^sup>x (cos \<pi>x + i sin \<pi>x)\<close>. Both are
  \<open>|b|\<^sup>x cis (\<pi> x)\<close>.
\<close>

definition py_float_pow :: "real \<Rightarrow> real \<Rightarrow> error + complex" where
  "py_float_pow b x =
     (case float_pow \<bar>b\<bar> x of
        Inl e \<Rightarrow> Inl e
      | Inr r \<Rightarrow> Inr (if 0 \<le> b then of_real r else of_real r * cis (pi * x)))"



text \<open>
  numpy broadcasting of two one-dimensional operands in a binary operation
  \<^verbatim>\<open>a + b\<close>: the lengths agree, or one of them is 1 and that operand is
  repeated; anything else raises \<^verbatim>\<open>ValueError\<close>.
\<close>

definition np_binop :: "('a \<Rightarrow> 'b \<Rightarrow> 'c) \<Rightarrow> 'a list \<Rightarrow> 'b list \<Rightarrow> error + 'c list" where
  "np_binop f xs ys =
     (if length xs = length ys then Inr (map2 f xs ys)
      else if length xs = 1 then Inr (map (f (hd xs)) ys)
      else if length ys = 1 then Inr (map (\<lambda>x. f x (hd ys)) xs)
      else Inl ValueError)"

text \<open>
  The in-place form \<^verbatim>\<open>a *= b\<close>: the result is written into \<open>a\<close>, so only
  \<open>b\<close> may be repeated; a \<open>b\<close> that would enlarge \<open>a\<close> raises \<^verbatim>\<open>ValueError\<close>.
\<close>

definition np_imul :: "complex list \<Rightarrow> complex list \<Rightarrow> error + complex list" where
  "np_imul xs ys =
     (if length ys = length xs then Inr (map2 (*) xs ys)
      else if length ys = 1 then Inr (map (\<lambda>x. x * hd ys) xs)
      else Inl ValueError)"

text \<open>
  \<^verbatim>\<open>numpy.fft.fftfreq(n, d)\<close>: \<^verbatim>\<open>val = 1.0 / (n * d)\<close> is computed first
  (the product converts the integer \<open>n\<close> to a float, raising \<^verbatim>\<open>OverflowError\<close> when
  it is too large for one; the float division raises on zero), then an integer array of
  \<open>n\<close> entries is allocated (raising on a negative \<open>n\<close>), filled with
  \<open>0, 1, \<dots>, (n - 1) div 2, - (n div 2), \<dots>, -1\<close> and multiplied by \<open>val\<close>.
\<close>

definition fftfreq :: "int \<Rightarrow> real \<Rightarrow> error + real list" where
  "fftfreq n d =
     (if float_top \<le> \<bar>of_int n\<bar> then Inl OverflowError
      else if of_int n * d = 0 then Inl ZeroDivisionError
      else if n < 0 then Inl ValueError
      else Inr (map (\<lambda>i. of_int i * (1 / (of_int n * d)))
                    ([0 .. (n - 1) div 2] @ [- (n div 2) .. -1])))"

text \<open>
  \<^verbatim>\<open>scipy.fft.fft\<close> and \<^verbatim>\<open>scipy.fft.ifft\<close> on a one-dimensional array, default
  normalisation: \<open>y[k] = \<Sum>n. x[n] exp(-2\<pi>i k n / N)\<close> and
  \<open>x[n] = (1/N) \<Sum>k. y[k] exp(2\<pi>i k n / N)\<close>; both refuse an empty array with
  \<^verbatim>\<open>ValueError\<close>. \<open>cis t\<close> is \<open>exp (i t)\<close>.
\<close>

definition dft_coeff :: "complex list \<Rightarrow> nat \<Rightarrow> complex" where
  "dft_coeff xs k =
     (\<Sum>n<length xs. xs ! n * cis (- (2 * pi * real k * real n / real (length xs))))"

definition idft_coeff :: "complex list \<Rightarrow> nat \<Rightarrow> complex" where
  "idft_coeff ys n =
     (\<Sum>k<length ys. ys ! k * cis (2 * pi * real k * real n / real (length ys)))
       / of_nat (length ys)"

definition dft :: "complex list \<Rightarrow> complex list" where
  "dft xs = map (dft_coeff xs) [0..<length xs]"

definition idft :: "complex list \<Rightarrow> complex list" where
  "idft ys = map (idft_coeff ys) [0..<length ys]"

definition fft :: "complex list \<Rightarrow> error + complex list" where
  "fft xs = (if xs = [] then Inl ValueError else Inr (dft xs))"

definition ifft :: "complex list \<Rightarrow> error + complex list" where
  "ifft ys = (if ys = [] then Inl ValueError else Inr (idft ys))"

section \<open>The channel object\<close>

text \<open>
  The attributes \<^verbatim>\<open>__init__\<close> stores. The timeline collaborator is not part of this
  repository's sources; it is an opaque value of type \<open>'tl\<close>.
\<close>

record 'tl channel =
  timeline :: 'tl
  fiber_length :: real
  attenuation :: real
  beta2 :: real
  beta3 :: real
  dg_delay :: real
  gamma :: real
  fft_samples :: int
  step_size :: real
  frequency_grid :: "real list"
  angular_freq :: "real list"

text \<open>
  \<^verbatim>\<open>__init__\<close> (lines 28-51). \<^verbatim>\<open>10 ** x\<close> with a float exponent (line 41) is the float
  power of the base \<open>10\<close>; it raises \<^verbatim>\<open>OverflowError\<close> before anything later is stored.
  The literals \<^verbatim>\<open>1e-24\<close>, \<^verbatim>\<open>1e-36\<close>, \<^verbatim>\<open>1e-12\<close> are the exact powers of ten.
  The other call that can raise is \<^verbatim>\<open>fftfreq\<close>, after every scalar has been stored.
\<close>

definition init ::
  "'tl \<Rightarrow> real \<Rightarrow> real \<Rightarrow> real \<Rightarrow> real \<Rightarrow> real \<Rightarrow> real \<Rightarrow> int \<Rightarrow> real \<Rightarrow> error + 'tl channel" where
  "init tline fiber_length_in attenuation_in beta2_in beta3_in dg_delay_in gamma_in
        fft_samples_in step_size_in =
     (case float_pow 10 (- attenuation_in / 10) of
        Inl e \<Rightarrow> Inl e
      | Inr att \<Rightarrow>
          (case fftfreq fft_samples_in (1 / 10 ^ 12) of
             Inl e \<Rightarrow> Inl e
           | Inr grid \<Rightarrow>
               Inr \<lparr> timeline = tline,
                     fiber_length = fiber_length_in,
                     attenuation = att,
                     beta2 = beta2_in * (1 / 10 ^ 24),
                     beta3 = beta3_in * (1 / 10 ^ 36),
                     dg_delay = dg_delay_in * (1 / 10 ^ 12),
                     gamma = gamma_in,
                     fft_samples = fft_samples_in,
                     step_size = step_size_in,
                     frequency_grid = grid,
                     angular_freq = map (\<lambda>f. 2 * pi * f) grid \<rparr>))"

section \<open>The two operators\<close>

text \<open>
  \<^verbatim>\<open>dispersion_operator\<close> (lines 53-67): numpy evaluates
  \<^verbatim>\<open>-1j * (beta2 / 2) * (w ** 2) * dz - 1j * (beta3 / 6) * (w ** 3) * dz\<close>
  elementwise over \<^verbatim>\<open>self.angular_freq\<close>, left to right, and exponentiates.
\<close>

definition dispersion_operator :: "'tl channel \<Rightarrow> real \<Rightarrow> complex list" where
  "dispersion_operator ch dz =
     map (\<lambda>w. exp (- \<i> * of_real (beta2 ch / 2) * of_real (w ^ 2) * of_real dz
                    - \<i> * of_real (beta3 ch / 6) * of_real (w ^ 3) * of_real dz))
         (angular_freq ch)"

text \<open>
  \<^verbatim>\<open>nonlinear_operator\<close> (lines 69-80):
  \<^verbatim>\<open>E * np.exp(1j * self.gamma * np.abs(E) ** 2 * dz)\<close>; both factors have the
  length of \<open>E\<close>, so the product is elementwise.
\<close>

definition nonlinear_operator :: "'tl channel \<Rightarrow> complex list \<Rightarrow> real \<Rightarrow> complex list" where
  "nonlinear_operator ch E dz =
     map (\<lambda>e. e * exp (\<i> * of_real (gamma ch) * of_real ((cmod e) ^ 2) * of_real dz)) E"

section \<open>Propagation\<close>

text \<open>
  Lines 105-107, the dispersion step: \<^verbatim>\<open>fft\<close>, the in-place product with
  \<^verbatim>\<open>dispersion_operator(dz)\<close>, \<^verbatim>\<open>ifft\<close>.
\<close>

definition dispersion_step :: "'tl channel \<Rightarrow> real \<Rightarrow> complex list \<Rightarrow> error + complex list" where
  "dispersion_step ch dz E =
     (case fft E of
        Inl e \<Rightarrow> Inl e
      | Inr E_f \<Rightarrow>
          (case np_imul E_f (dispersion_operator ch dz) of
             Inl e \<Rightarrow> Inl e
           | Inr E_f' \<Rightarrow> ifft E_f'))"

text \<open>
  Lines 101-113, the loop body. \<^verbatim>\<open>self.attenuation ** dz\<close> (line 113) is a float
  power, evaluated in every iteration after the second non-linear half step; it can
  raise, and the field is multiplied by its value.
\<close>

definition ssfm_step :: "'tl channel \<Rightarrow> real \<Rightarrow> complex list \<Rightarrow> error + complex list" where
  "ssfm_step ch dz E =
     (case dispersion_step ch dz (nonlinear_operator ch E (dz / 2)) of
        Inl e \<Rightarrow> Inl e
      | Inr E' \<Rightarrow>
          (case py_float_pow (attenuation ch) dz of
             Inl e \<Rightarrow> Inl e
           | Inr c \<Rightarrow> Inr (map (\<lambda>z. z * c) (nonlinear_operator ch E' (dz / 2)))))"

text \<open>
  \<^verbatim>\<open>for _ in range(num_steps)\<close>: the counter is the number of iterations left;
  an exception in the body ends the loop.
\<close>

fun ssfm_loop :: "'tl channel \<Rightarrow> real \<Rightarrow> nat \<Rightarrow> complex list \<Rightarrow> error + complex list" where
  "ssfm_loop ch dz 0 E = Inr E"
| "ssfm_loop ch dz (Suc n) E =
     (case ssfm_step ch dz E of
        Inl e \<Rightarrow> Inl e
      | Inr E' \<Rightarrow> ssfm_loop ch dz n E')"

text \<open>
  What a call that does not raise does to the outside: the line it prints (the event
  time and the last sample of \<^verbatim>\<open>P_out\<close>) and the arguments of the one call
  \<^verbatim>\<open>self.timeline.publish(self, event_time, P_out, Ex_out, Ey_out, magnitude)\<close>.
\<close>

record 'tl propagation =
  log_time :: real
  log_power :: real
  pub_source :: "'tl channel"
  pub_time :: real
  P_out :: "real list"
  Ex_out :: "real list"
  Ey_out :: "real list"
  magnitude :: "real list"

text \<open>
  \<^verbatim>\<open>int(self.fiber_length / self.step_size)\<close> (line 94): float division raises on a
  zero divisor and rounds the quotient to a double, which \<^verbatim>\<open>int()\<close> truncates. The
  quotient is taken to be of magnitude below \<open>float_top\<close>: beyond that the double is
  an infinity, on which \<^verbatim>\<open>int()\<close> raises \<^verbatim>\<open>OverflowError\<close>; that case has no branch
  here.
\<close>

definition num_steps :: "'tl channel \<Rightarrow> error + int" where
  "num_steps ch =
     (if step_size ch = 0 then Inl ZeroDivisionError
      else Inr (py_int (fl (fiber_length ch / step_size ch))))"

text \<open>
  \<^verbatim>\<open>propagate_signal\<close> (lines 82-122). The method assigns to no attribute of
  \<^verbatim>\<open>self\<close>; the channel is returned as the state after the call, beside the result.
  The arguments \<^verbatim>\<open>Ex\<close>, \<^verbatim>\<open>Ey\<close> are \<open>E_x\<close>, \<open>E_y\<close> here.
  \<^verbatim>\<open>range(n)\<close> with \<open>n \<le> 0\<close> is empty. \<^verbatim>\<open>P_out[-1]\<close> raises on an empty array.
\<close>

definition propagate_signal ::
  "'tl channel \<Rightarrow> real \<Rightarrow> real list \<Rightarrow> real list \<Rightarrow> real list \<Rightarrow> real list \<Rightarrow> real list
     \<Rightarrow> 'tl channel \<times> (error + 'tl propagation)" where
  "propagate_signal ch event_time t P E_x E_y E =
     (ch,
      case num_steps ch of
        Inl e \<Rightarrow> Inl e
      | Inr steps \<Rightarrow>
          (case np_binop (\<lambda>x y. of_real x + y) E_x (map (\<lambda>y. \<i> * of_real y) E_y) of
             Inl e \<Rightarrow> Inl e
           | Inr E0 \<Rightarrow>
               (case ssfm_loop ch (step_size ch) (nat steps) E0 of
                  Inl e \<Rightarrow> Inl e
                | Inr E_complex \<Rightarrow>
                    (let Ex_o = map Re E_complex;
                         Ey_o = map Im E_complex;
                         P_o = map2 (\<lambda>x y. x ^ 2 + y ^ 2) Ex_o Ey_o
                     in if P_o = [] then Inl IndexError
                        else Inr \<lparr> log_time = event_time,
                                   log_power = last P_o,
                                   pub_source = ch,
                                   pub_time = event_time,
                                   P_out = P_o,
                                   Ex_out = Ex_o,
                                   Ey_out = Ey_o,
                                   magnitude = map2 (\<lambda>x y. sqrt (x ^ 2 + y ^ 2)) Ex_o Ey_o \<rparr>))))"

section \<open>Quantities the properties speak about\<close>

text \<open>
  The four arrays of the publish call.
\<close>

definition published_arrays ::
  "'tl propagation \<Rightarrow> real list \<times> real list \<times> real list \<times> real list" where
  "published_arrays out = (P_out out, Ex_out out, Ey_out out, magnitude out)"

text \<open>
  Total signal energy, the sum of the squared magnitudes of the samples.
\<close>

definition energy :: "complex list \<Rightarrow> real" where
  "energy E = (\<Sum>z\<leftarrow>E. (cmod z)\<^sup>2)"

text \<open>
  The complex field line 98 builds from two arrays of one length.
\<close>

definition combine :: "real list \<Rightarrow> real list \<Rightarrow> complex list" where
  "combine E_x E_y = map2 (\<lambda>x y. of_real x + \<i> * of_real y) E_x E_y"

text \<open>
  One iteration as the specification words it, on arrays of the configured length where
  no call can raise: half non-linear step, forward transform, product with the dispersion
  operator at the full step, inverse transform, half non-linear step, attenuation.
\<close>

definition spec_iteration :: "'tl channel \<Rightarrow> real \<Rightarrow> complex list \<Rightarrow> complex list" where
  "spec_iteration ch dz E =
     (let E1 = nonlinear_operator ch E (dz / 2);
          E_f = dft E1;
          E_f' = map2 (*) E_f (dispersion_operator ch dz);
          E2 = idft E_f';
          E3 = nonlinear_operator ch E2 (dz / 2)
      in map (\<lambda>z. z * of_real (attenuation ch powr dz)) E3)"


definition two_sample_channel :: "unit channel" where
  "two_sample_channel =
     \<lparr> timeline = (), fiber_length = 50, attenuation = 10 powr (- (1 / 5) / 10),
       beta2 = - (2127 / 100) * (1 / 10 ^ 24), beta3 = 3 / 25 * (1 / 10 ^ 36),
       dg_delay = 1 / 10 * (1 / 10 ^ 12), gamma = 13 / 10, fft_samples = 2,
       step_size = 1 / 10,
       frequency_grid = [0, - (10 ^ 12 / 2)],
       angular_freq = [0, 2 * pi * - (10 ^ 12 / 2)] \<rparr>"

text \<open>
  The double nearest to \<open>0.1\<close>, which is the value of the default step size
  \<^verbatim>\<open>step_size=0.1\<close>.
\<close>

definition tenth :: real where
  "tenth = 3602879701896397 / 36028797018963968"

section \<open>Floats\<close>

lemma float_top_gt: "1 < float_top"
  by (simp add: float_top_def)

lemma float_tiny_pos: "0 < float_tiny"
  by (simp add: float_tiny_def)

lemma float_tiny_lt: "float_tiny < 1 / 10"
  by (simp add: float_tiny_def)


lemma float_range_id:
  assumes "float_tiny < \<bar>r\<bar>" "\<bar>r\<bar> < float_top"
  shows "float_range r = Inr r"
  using assms by (simp add: float_range_def)



lemma float_pow_exact:
  assumes "0 < b" "float_tiny < b powr x" "b powr x < float_top"
  shows "float_pow b x = Inr (b powr x)"
proof (cases "x = 0")
  case True
  with assms(1) show ?thesis by (simp add: float_pow_def)
next
  case False
  have "float_range (b powr x) = Inr (b powr x)"
    using assms by (intro float_range_id) simp_all
  with False assms(1) show ?thesis by (simp add: float_pow_def)
qed

lemma py_float_pow_exact:
  assumes "0 < b" "float_tiny < b powr x" "b powr x < float_top"
  shows "py_float_pow b x = Inr (of_real (b powr x))"
  using assms by (simp add: py_float_pow_def float_pow_exact)



lemma powr_unit_interval:
  fixes b :: real
  assumes "1 / 10 \<le> b" "b \<le> 1" "0 \<le> x" "x \<le> 1"
  shows "1 / 10 \<le> b powr x" "b powr x \<le> 1"
proof -
  have b: "0 < b" using assms(1) by simp
  have "b powr 1 \<le> b powr x"
    using assms b by (intro powr_mono') simp_all
  then show "1 / 10 \<le> b powr x" using assms(1) b by simp
  show "b powr x \<le> 1" using assms b by (intro powr_le1) simp_all
qed

lemma default_attenuation:
  "1 / 10 \<le> (10::real) powr (- (1 / 50))" "(10::real) powr (- (1 / 50)) \<le> 1"
proof -
  have "(10::real) powr (- 1) \<le> 10 powr (- (1 / 50))"
    by (intro powr_mono) simp_all
  then show "1 / 10 \<le> (10::real) powr (- (1 / 50))" by (simp add: powr_minus_divide)
  have "(10::real) powr (- (1 / 50)) \<le> 10 powr 0"
    by (intro powr_mono) simp_all
  then show "(10::real) powr (- (1 / 50)) \<le> 1" by simp
qed

lemma float_pow_default: "float_pow 10 (- (1 / 50)) = Inr (10 powr (- (1 / 50)))"
  using default_attenuation float_tiny_lt float_top_gt
  by (intro float_pow_exact) simp_all

lemma round_half_even_of_int: "round_half_even (of_int k) = k"
  by (simp add: round_half_even_def)







section \<open>The discrete Fourier transform\<close>

text \<open>
  Sums of roots of unity, the inversion formula and Parseval's identity.
\<close>

lemma cis_eq_1_imp: assumes "cis t = 1" shows "\<exists>n::int. t = of_int n * (2 * pi)"
proof -
  from assms have "cos t = 1" by (simp add: complex_eq_iff)
  then show ?thesis by (simp add: cos_one_2pi_int mult.assoc)
qed

lemma root_of_unity_neq1:
  fixes d :: int and N :: nat
  assumes "d \<noteq> 0" "\<bar>d\<bar> < int N"
  shows "cis (2 * pi * of_int d / real N) \<noteq> 1"
proof
  assume "cis (2 * pi * of_int d / real N) = 1"
  then obtain n :: int where n: "2 * pi * of_int d / real N = of_int n * (2 * pi)"
    using cis_eq_1_imp by blast
  from assms have N: "real N > 0" by auto
  have "(2 * pi) * (of_int d / real N) = (2 * pi) * of_int n" using n by (simp add: mult.commute)
  moreover have "2 * pi \<noteq> (0::real)" by simp
  ultimately have "of_int d / real N = (of_int n :: real)" using mult_left_cancel by blast
  then have "(of_int d :: real) = of_int n * real N" using N by (simp add: field_simps)
  then have "(of_int d :: real) = of_int (n * int N)" by simp
  then have eq: "d = n * int N" using of_int_eq_iff by blast
  show False
  proof (cases "n = 0")
    case True with eq assms show False by simp
  next
    case False
    then have "\<bar>n\<bar> \<ge> 1" by simp
    then have "\<bar>n * int N\<bar> \<ge> int N" by (simp add: abs_mult mult_le_cancel_right1)
    with eq assms show False by simp
  qed
qed

lemma root_sum:
  fixes d :: int and N :: nat
  assumes "\<bar>d\<bar> < int N"
  shows "(\<Sum>k<N. cis (2 * pi * real k * of_int d / real N)) = (if d = 0 then of_nat N else 0)"
proof (cases "d = 0")
  case True then show ?thesis by simp
next
  case False
  define w where "w = cis (2 * pi * of_int d / real N)"
  have w1: "w \<noteq> 1" unfolding w_def using root_of_unity_neq1[OF False assms] .
  have N: "N > 0" using assms by auto
  have "w ^ N = cis (real N * (2 * pi * of_int d / real N))" unfolding w_def by (rule DeMoivre)
  also have "real N * (2 * pi * of_int d / real N) = 2 * pi * of_int d" using N by simp
  also have "cis (2 * pi * of_int d) = 1" by (rule cis_multiple_2pi) simp
  finally have wN: "w ^ N = 1" .
  have "(\<Sum>k<N. cis (2 * pi * real k * of_int d / real N)) = (\<Sum>k<N. w ^ k)"
    unfolding w_def by (simp add: DeMoivre algebra_simps)
  also have "\<dots> = (w ^ N - 1) / (w - 1)" using w1 by (rule geometric_sum)
  also have "\<dots> = 0" using wN by simp
  finally show ?thesis using False by simp
qed


lemma dft_orth:
  assumes "n < N" "m < N"
  shows "(\<Sum>k<N. cis (- (2 * pi * real k * real m / real N)) * cis (2 * pi * real k * real n / real N))
         = (if m = n then of_nat N else 0)"
proof -
  have "\<bar>int n - int m\<bar> < int N" using assms by auto
  from root_sum[OF this]
  have "(\<Sum>k<N. cis (2 * pi * real k * of_int (int n - int m) / real N))
        = (if int n - int m = 0 then of_nat N else 0)" .
  moreover have "\<And>k. cis (- (2 * pi * real k * real m / real N)) * cis (2 * pi * real k * real n / real N)
        = cis (2 * pi * real k * of_int (int n - int m) / real N)"
    by (simp add: cis_mult algebra_simps diff_divide_distrib)
  ultimately show ?thesis by auto
qed


lemma parseval_pos:
  fixes f :: "nat \<Rightarrow> complex"
  shows "(\<Sum>k<N. (cmod (\<Sum>n<N. f n * cis (2 * pi * real k * real n / real N)))\<^sup>2)
         = real N * (\<Sum>n<N. (cmod (f n))\<^sup>2)"
proof -
  let ?c = "\<lambda>k n. cis (2 * pi * real k * real n / real N)"
  let ?A = "\<lambda>k. \<Sum>n<N. f n * ?c k n"
  have cnjA: "cnj (?A k) = (\<Sum>m<N. cnj (f m) * cis (- (2 * pi * real k * real m / real N)))" for k
    by (simp add: cis_cnj)
  have "(\<Sum>k<N. ?A k * cnj (?A k))
      = (\<Sum>k<N. \<Sum>n<N. \<Sum>m<N. (f n * cnj (f m)) * (cis (- (2 * pi * real k * real m / real N)) * ?c k n))"
    unfolding cnjA sum_product by (simp add: mult_ac)
  also have "\<dots> = (\<Sum>n<N. \<Sum>k<N. \<Sum>m<N. (f n * cnj (f m)) * (cis (- (2 * pi * real k * real m / real N)) * ?c k n))"
    by (rule sum.swap)
  also have "\<dots> = (\<Sum>n<N. \<Sum>m<N. \<Sum>k<N. (f n * cnj (f m)) * (cis (- (2 * pi * real k * real m / real N)) * ?c k n))"
    by (rule sum.cong[OF refl]) (rule sum.swap)
  also have "\<dots> = (\<Sum>n<N. \<Sum>m<N. (f n * cnj (f m)) * (\<Sum>k<N. cis (- (2 * pi * real k * real m / real N)) * ?c k n))"
    by (simp add: sum_distrib_left)
  also have "\<dots> = (\<Sum>n<N. \<Sum>m<N. (f n * cnj (f m)) * (if m = n then of_nat N else 0))"
    by (intro sum.cong refl) (simp add: dft_orth)
  also have "\<dots> = (\<Sum>n<N. \<Sum>m<N. (if m = n then f n * cnj (f n) * of_nat N else 0))"
    by (intro sum.cong refl) simp
  also have "\<dots> = (\<Sum>n<N. f n * cnj (f n) * of_nat N)"
    by (intro sum.cong refl) simp
  finally have eq: "(\<Sum>k<N. ?A k * cnj (?A k)) = (\<Sum>n<N. f n * cnj (f n) * of_nat N)" .
  have sq: "\<And>z. complex_of_real ((cmod z)\<^sup>2) = z * cnj z" by (rule complex_norm_square)
  have "complex_of_real (\<Sum>k<N. (cmod (?A k))\<^sup>2) = (\<Sum>k<N. complex_of_real ((cmod (?A k))\<^sup>2))"
    by (rule of_real_sum)
  also have "\<dots> = (\<Sum>k<N. ?A k * cnj (?A k))" by (simp only: sq)
  also note eq
  also have "(\<Sum>n<N. f n * cnj (f n) * of_nat N) = (\<Sum>n<N. complex_of_real ((cmod (f n))\<^sup>2) * of_nat N)"
    by (simp only: sq)
  also have "\<dots> = complex_of_real (real N * (\<Sum>n<N. (cmod (f n))\<^sup>2))"
    by (simp add: sum_distrib_left mult.commute)
  finally show ?thesis using of_real_eq_iff by blast
qed

lemma parseval_neg:
  fixes f :: "nat \<Rightarrow> complex"
  shows "(\<Sum>k<N. (cmod (\<Sum>n<N. f n * cis (- (2 * pi * real k * real n / real N))))\<^sup>2)
         = real N * (\<Sum>n<N. (cmod (f n))\<^sup>2)"
proof -
  have "(\<Sum>n<N. f n * cis (- (2 * pi * real k * real n / real N)))
        = cnj (\<Sum>n<N. cnj (f n) * cis (2 * pi * real k * real n / real N))" for k
    by (simp add: cis_cnj)
  then have "(\<Sum>k<N. (cmod (\<Sum>n<N. f n * cis (- (2 * pi * real k * real n / real N))))\<^sup>2)
      = (\<Sum>k<N. (cmod (\<Sum>n<N. cnj (f n) * cis (2 * pi * real k * real n / real N)))\<^sup>2)"
    by (simp only: complex_mod_cnj)
  also have "\<dots> = real N * (\<Sum>n<N. (cmod (cnj (f n)))\<^sup>2)" by (rule parseval_pos)
  finally show ?thesis by simp
qed

section \<open>Shapes and the calls that cannot raise\<close>

lemma length_dft [simp]: "length (dft xs) = length xs" by (simp add: dft_def)
lemma length_idft [simp]: "length (idft xs) = length xs" by (simp add: idft_def)
lemma length_nonlinear_operator [simp]: "length (nonlinear_operator ch E dz) = length E"
  by (simp add: nonlinear_operator_def)
lemma length_dispersion_operator [simp]:
  "length (dispersion_operator ch dz) = length (angular_freq ch)"
  by (simp add: dispersion_operator_def)

lemma dispersion_step_ok:
  assumes "length E = length (angular_freq ch)" "E \<noteq> []"
  shows "dispersion_step ch dz E = Inr (idft (map2 (*) (dft E) (dispersion_operator ch dz)))"
proof -
  have "length (dft E) = length E" "length (dispersion_operator ch dz) = length E"
    using assms by simp_all
  then have "dft E \<noteq> []" "dispersion_operator ch dz \<noteq> []"
    using assms(2) by (metis length_0_conv)+
  then show ?thesis
    using assms by (simp add: dispersion_step_def fft_def ifft_def np_imul_def)
qed

lemma ssfm_step_ok:
  assumes "length E = length (angular_freq ch)" "E \<noteq> []"
    "py_float_pow (attenuation ch) dz = Inr (of_real (attenuation ch powr dz))"
  shows "ssfm_step ch dz E = Inr (spec_iteration ch dz E)"
proof -
  have "nonlinear_operator ch E (dz / 2) \<noteq> []" using assms(2) by (simp add: nonlinear_operator_def)
  with assms(1) show ?thesis
    by (simp add: ssfm_step_def spec_iteration_def dispersion_step_ok assms(3) Let_def)
qed

lemma length_spec_iteration:
  "length E = length (angular_freq ch) \<Longrightarrow> length (spec_iteration ch dz E) = length E"
  by (simp add: spec_iteration_def Let_def)

lemma ssfm_loop_ok:
  assumes "py_float_pow (attenuation ch) dz = Inr (of_real (attenuation ch powr dz))"
  shows "length E = length (angular_freq ch) \<Longrightarrow> E \<noteq> [] \<Longrightarrow>
         ssfm_loop ch dz n E = Inr ((spec_iteration ch dz ^^ n) E)"
proof (induction n arbitrary: E)
  case 0
  then show ?case by simp
next
  case (Suc n)
  let ?E' = "spec_iteration ch dz E"
  have len: "length ?E' = length (angular_freq ch)" using Suc.prems(1) by (simp add: length_spec_iteration)
  have ne: "?E' \<noteq> []" using Suc.prems len by auto
  show ?case using Suc.IH[OF len ne] Suc.prems by (simp add: ssfm_step_ok[OF _ _ assms] funpow_swap1)
qed

lemma length_funpow_spec_iteration:
  "length E = length (angular_freq ch) \<Longrightarrow> length ((spec_iteration ch dz ^^ n) E) = length E"
  by (induction n) (simp_all add: length_spec_iteration)

lemma np_binop_combine:
  "length E_x = length E_y \<Longrightarrow>
   np_binop (\<lambda>x y. of_real x + y) E_x (map (\<lambda>y. \<i> * of_real y) E_y) = Inr (combine E_x E_y)"
  by (simp add: np_binop_def combine_def zip_map2 case_prod_unfold)

lemma propagate_ok:
  assumes "step_size ch \<noteq> 0" "length E_x = length (angular_freq ch)"
    "length E_y = length (angular_freq ch)" "E_x \<noteq> []"
    "py_float_pow (attenuation ch) (step_size ch)
       = Inr (of_real (attenuation ch powr step_size ch))"
  defines "F \<equiv> (spec_iteration ch (step_size ch) ^^ nat (py_int (fl (fiber_length ch / step_size ch)))) (combine E_x E_y)"
  shows "snd (propagate_signal ch ev t P E_x E_y E) =
           Inr \<lparr> log_time = ev,
                 log_power = last (map2 (\<lambda>x y. x\<^sup>2 + y\<^sup>2) (map Re F) (map Im F)),
                 pub_source = ch, pub_time = ev,
                 P_out = map2 (\<lambda>x y. x\<^sup>2 + y\<^sup>2) (map Re F) (map Im F),
                 Ex_out = map Re F, Ey_out = map Im F,
                 magnitude = map2 (\<lambda>x y. sqrt (x\<^sup>2 + y\<^sup>2)) (map Re F) (map Im F) \<rparr>"
proof -
  have lc: "length (combine E_x E_y) = length (angular_freq ch)" using assms by (simp add: combine_def)
  have nc: "combine E_x E_y \<noteq> []" using lc assms by auto
  have lF: "length F = length E_x" unfolding F_def using lc assms(2) by (simp add: length_funpow_spec_iteration)
  have nF: "F \<noteq> []" using lF assms(4) by auto
  have loop: "ssfm_loop ch (step_size ch) (nat (py_int (fl (fiber_length ch / step_size ch)))) (combine E_x E_y) = Inr F"
    unfolding F_def by (rule ssfm_loop_ok[OF assms(5) lc nc])
  show ?thesis
    using assms(1-3) nF by (simp add: propagate_signal_def num_steps_def np_binop_combine loop Let_def)
qed

lemma init_two_sample:
  "init () 50 (1 / 5) (- (2127 / 100)) (3 / 25) (1 / 10) (13 / 10) 2 (1 / 10) = Inr two_sample_channel"
  by (simp add: init_def float_pow_default fftfreq_def float_top_def upto.simps
        two_sample_channel_def)


lemma two_sample_power:
  "py_float_pow (attenuation two_sample_channel) (step_size two_sample_channel)
     = Inr (of_real (attenuation two_sample_channel powr step_size two_sample_channel))"
proof -
  have b: "1 / 10 \<le> ((10::real) powr (- (1 / 50))) powr (1 / 10)"
    using powr_unit_interval(1)[OF default_attenuation, of "1 / 10"] by simp
  have b': "((10::real) powr (- (1 / 50))) powr (1 / 10) \<le> 1"
    using powr_unit_interval(2)[OF default_attenuation, of "1 / 10"] by simp
  have "py_float_pow (10 powr (- (1 / 50))) (1 / 10)
          = Inr (of_real (((10::real) powr (- (1 / 50))) powr (1 / 10)))"
    using b b' float_tiny_lt float_top_gt by (intro py_float_pow_exact) simp_all
  then show ?thesis by (simp add: two_sample_channel_def)
qed



lemma cmod_exp_i_real: "cmod (exp (\<i> * complex_of_real x)) = 1"
  by simp

lemma exp_dispersion_add:
  fixes a b w v d1 d2 :: complex
  shows "exp (- \<i> * a * w * d1 - \<i> * b * v * d1) * exp (- \<i> * a * w * d2 - \<i> * b * v * d2)
         = exp (- \<i> * a * w * (d1 + d2) - \<i> * b * v * (d1 + d2))"
  by (simp add: exp_add[symmetric] algebra_simps)

section \<open>The dispersion operator\<close>

text \<open>
  C2. For every step size \<open>dz\<close>, \<open>dispersion_operator\<close> returns an array over the
  angular-frequency grid whose \<open>k\<close>-th element is
  \<open>exp(-i (\<beta>2/2) \<omega>\<^sub>k\<^sup>2 dz - i (\<beta>3/6) \<omega>\<^sub>k\<^sup>3 dz)\<close> with the stored coefficients; the result
  is determined by \<open>dz\<close>, the grid and the two coefficients alone, and the function
  returns nothing but the array.
\<close>

theorem dispersion_operator_elements:
  "length (dispersion_operator ch dz) = length (angular_freq ch) \<and>
   (\<forall>k < length (angular_freq ch).
      dispersion_operator ch dz ! k =
        exp (- \<i> * complex_of_real (beta2 ch / 2 * (angular_freq ch ! k)\<^sup>2 * dz)
             - \<i> * complex_of_real (beta3 ch / 6 * (angular_freq ch ! k) ^ 3 * dz))) \<and>
   (\<forall>ch' :: 'b channel.
      angular_freq ch' = angular_freq ch \<and> beta2 ch' = beta2 ch \<and> beta3 ch' = beta3 ch
        \<longrightarrow> dispersion_operator ch' dz = dispersion_operator ch dz)"
  by (simp add: dispersion_operator_def mult.assoc)

theorem dispersion_operator_elements_witness:
  "(1::nat) < length (angular_freq two_sample_channel) \<and>
   dispersion_operator two_sample_channel (1 / 10) ! 1 =
     exp (- \<i> * complex_of_real (beta2 two_sample_channel / 2 * (angular_freq two_sample_channel ! 1)\<^sup>2 * (1 / 10))
          - \<i> * complex_of_real (beta3 two_sample_channel / 6 * (angular_freq two_sample_channel ! 1) ^ 3 * (1 / 10)))"
proof -
  have l: "(1::nat) < length (angular_freq two_sample_channel)" by (simp add: two_sample_channel_def)
  from dispersion_operator_elements[of two_sample_channel "1 / 10"] l show ?thesis by blast
qed

text \<open>
  C4. For every pair of step sizes, the operator at \<open>dz1 + dz2\<close> is the elementwise
  product of the operators at \<open>dz1\<close> and at \<open>dz2\<close>.
\<close>

theorem dispersion_operator_additive:
  "np_binop (*) (dispersion_operator ch dz1) (dispersion_operator ch dz2)
     = Inr (dispersion_operator ch (dz1 + dz2))"
proof -
  have "map2 (*) (dispersion_operator ch dz1) (dispersion_operator ch dz2)
        = dispersion_operator ch (dz1 + dz2)"
    unfolding dispersion_operator_def map2_map_map
    by (rule map_cong[OF refl]) (simp only: of_real_add exp_dispersion_add)
  then show ?thesis by (simp add: np_binop_def dispersion_operator_def)
qed

section \<open>The non-linear operator\<close>

text \<open>
  C3. For every field array \<open>E\<close>, step size \<open>dz\<close> and index \<open>k\<close>, the \<open>k\<close>-th element of
  \<open>nonlinear_operator E dz\<close> is \<open>E\<^sub>k exp(i \<gamma> |E\<^sub>k|\<^sup>2 dz)\<close>, a function of the \<open>k\<close>-th sample
  alone, and has the magnitude of \<open>E\<^sub>k\<close>.
\<close>

theorem nonlinear_operator_pointwise:
  "length (nonlinear_operator ch E dz) = length E \<and>
   (\<forall>k < length E.
      nonlinear_operator ch E dz ! k
        = E ! k * exp (\<i> * complex_of_real (gamma ch * (cmod (E ! k))\<^sup>2 * dz)) \<and>
      cmod (nonlinear_operator ch E dz ! k) = cmod (E ! k))"
proof -
  have "cmod (e * exp (\<i> * of_real (gamma ch) * of_real ((cmod e)\<^sup>2) * of_real dz)) = cmod e" for e
  proof -
    have "\<i> * of_real (gamma ch) * of_real ((cmod e)\<^sup>2) * of_real dz
          = \<i> * complex_of_real (gamma ch * (cmod e)\<^sup>2 * dz)" by simp
    then show ?thesis by (simp only: norm_mult cmod_exp_i_real mult_1_right)
  qed
  then show ?thesis by (simp add: nonlinear_operator_def mult.assoc)
qed

theorem nonlinear_operator_pointwise_witness:
  "(1::nat) < length [1, \<i>] \<and>
   nonlinear_operator two_sample_channel [1, \<i>] (1 / 20) ! 1
     = [1, \<i>] ! 1 * exp (\<i> * complex_of_real (gamma two_sample_channel * (cmod ([1, \<i>] ! 1))\<^sup>2 * (1 / 20))) \<and>
   cmod (nonlinear_operator two_sample_channel [1, \<i>] (1 / 20) ! 1) = cmod ([1, \<i>] ! 1)"
proof -
  have l: "(1::nat) < length [1, \<i>]" by simp
  from nonlinear_operator_pointwise[of two_sample_channel "[1, \<i>]" "1 / 20"] l
  show ?thesis by blast
qed

section \<open>What propagation does not read\<close>

lemma dispersion_operator_dg [simp]:
  "dispersion_operator (ch\<lparr>dg_delay := d\<rparr>) dz = dispersion_operator ch dz"
  by (simp add: dispersion_operator_def)

lemma nonlinear_operator_dg [simp]:
  "nonlinear_operator (ch\<lparr>dg_delay := d\<rparr>) E dz = nonlinear_operator ch E dz"
  by (simp add: nonlinear_operator_def)

lemma dispersion_step_dg [simp]:
  "dispersion_step (ch\<lparr>dg_delay := d\<rparr>) dz E = dispersion_step ch dz E"
  by (simp add: dispersion_step_def cong: sum.case_cong)

lemma ssfm_step_dg [simp]: "ssfm_step (ch\<lparr>dg_delay := d\<rparr>) dz E = ssfm_step ch dz E"
  by (simp add: ssfm_step_def cong: sum.case_cong)

lemma ssfm_loop_dg [simp]: "ssfm_loop (ch\<lparr>dg_delay := d\<rparr>) dz n E = ssfm_loop ch dz n E"
  by (induction n arbitrary: E) (simp_all cong: sum.case_cong)

lemma num_steps_dg [simp]: "num_steps (ch\<lparr>dg_delay := d\<rparr>) = num_steps ch"
  by (simp add: num_steps_def)

lemma init_Inr_iff:
  "init tline L a b2 b3 dg g N dz = Inr ch \<longleftrightarrow>
     0 < N \<and> of_int N < float_top \<and> 10 powr (- a / 10) < float_top \<and>
     ch = \<lparr> timeline = tline, fiber_length = L,
                     attenuation = (if 10 powr (- a / 10) \<le> float_tiny then 0 else 10 powr (- a / 10)),
                     beta2 = b2 * (1 / 10 ^ 24), beta3 = b3 * (1 / 10 ^ 36),
                     dg_delay = dg * (1 / 10 ^ 12), gamma = g, fft_samples = N, step_size = dz,
                     frequency_grid = map (\<lambda>i. of_int i * (1 / (of_int N * (1 / 10 ^ 12))))
                                          ([0 .. (N - 1) div 2] @ [- (N div 2) .. -1]),
                     angular_freq = map (\<lambda>f. 2 * pi * f)
                        (map (\<lambda>i. of_int i * (1 / (of_int N * (1 / 10 ^ 12))))
                             ([0 .. (N - 1) div 2] @ [- (N div 2) .. -1])) \<rparr>"
proof -
  have p: "float_pow 10 (- a / 10)
             = (if float_top \<le> 10 powr (- a / 10) then Inl OverflowError
                else Inr (if 10 powr (- a / 10) \<le> float_tiny then 0 else 10 powr (- a / 10)))"
    using float_top_gt float_tiny_lt by (simp add: float_pow_def float_range_def)
  show ?thesis
    unfolding init_def p by (auto simp add: fftfreq_def)
qed

text \<open>
  C9. The differential group delay is converted and stored by the constructor and read by
  nothing in the propagation: two channels that differ only in \<open>dg_delay\<close> publish the same
  four arrays (and raise the same errors) on the same inputs, and two constructor calls
  that differ only in the delay build channels that differ only in that field.
\<close>

theorem dg_delay_inert:
  "map_sum id published_arrays (snd (propagate_signal (ch\<lparr>dg_delay := d\<rparr>) ev t P E_x E_y E))
     = map_sum id published_arrays (snd (propagate_signal ch ev t P E_x E_y E)) \<and>
   (\<forall>c. init tline L a b2 b3 dg g N dz = Inr c \<longrightarrow> dg_delay c = dg * (1 / 10 ^ 12)) \<and>
   map_sum id (\<lambda>c. c\<lparr>dg_delay := d\<rparr>) (init tline L a b2 b3 dg g N dz)
     = map_sum id (\<lambda>c. c\<lparr>dg_delay := d\<rparr>) (init tline L a b2 b3 dg' g N dz)"
proof (intro conjI)
  show "map_sum id published_arrays (snd (propagate_signal (ch\<lparr>dg_delay := d\<rparr>) ev t P E_x E_y E))
     = map_sum id published_arrays (snd (propagate_signal ch ev t P E_x E_y E))"
    by (simp add: propagate_signal_def published_arrays_def Let_def split: sum.splits)
  show "\<forall>c. init tline L a b2 b3 dg g N dz = Inr c \<longrightarrow> dg_delay c = dg * (1 / 10 ^ 12)"
    by (simp add: init_Inr_iff)
  show "map_sum id (\<lambda>c. c\<lparr>dg_delay := d\<rparr>) (init tline L a b2 b3 dg g N dz)
     = map_sum id (\<lambda>c. c\<lparr>dg_delay := d\<rparr>) (init tline L a b2 b3 dg' g N dz)"
    by (simp add: init_def split: sum.splits)
qed

theorem dg_delay_inert_witness:
  "init () 50 (1 / 5) (- (2127 / 100)) (3 / 25) (1 / 10) (13 / 10) 2 (1 / 10) = Inr two_sample_channel \<and>
   dg_delay two_sample_channel = 1 / 10 * (1 / 10 ^ 12)"
proof -
  from dg_delay_inert[where tline = "()" and L = 50 and a = "1 / 5" and ?b2.0 = "- (2127 / 100)"
      and ?b3.0 = "3 / 25" and dg = "1 / 10" and g = "13 / 10" and N = 2 and dz = "1 / 10"]
  have "\<forall>c. init () 50 (1 / 5) (- (2127 / 100)) (3 / 25) (1 / 10) (13 / 10) 2 (1 / 10) = Inr c
            \<longrightarrow> dg_delay c = 1 / 10 * (1 / 10 ^ 12)"
    by blast
  with init_two_sample show ?thesis by blast
qed

text \<open>
  C10. \<open>propagate_signal\<close> never reads \<open>t\<close>, \<open>P\<close> or \<open>E\<close>: calls that differ only in them
  have the same result; the published arrays depend on \<open>E_x\<close>, \<open>E_y\<close> and the channel
  alone, not on the event time either; the event time reaches the publish call unchanged,
  with the channel itself as the source.
\<close>

theorem unused_arguments:
  "propagate_signal ch ev t P E_x E_y E = propagate_signal ch ev t' P' E_x E_y E' \<and>
   map_sum id published_arrays (snd (propagate_signal ch ev t P E_x E_y E))
     = map_sum id published_arrays (snd (propagate_signal ch ev' t' P' E_x E_y E')) \<and>
   (\<forall>out. snd (propagate_signal ch ev t P E_x E_y E) = Inr out
            \<longrightarrow> pub_time out = ev \<and> pub_source out = ch)"
  by (auto simp add: propagate_signal_def published_arrays_def Let_def split: sum.splits if_splits)

theorem unused_arguments_witness:
  "\<exists>out. snd (propagate_signal two_sample_channel 7 [1, 2, 3] [] [1, 0] [0, 0] [5]) = Inr out \<and>
         pub_time out = 7 \<and> pub_source out = two_sample_channel"
proof -
  have "\<exists>out. snd (propagate_signal two_sample_channel 7 [1, 2, 3] [] [1, 0] [0, 0] [5]) = Inr out"
    by (subst propagate_ok) (simp_all add: two_sample_power, simp_all add: two_sample_channel_def)
  with unused_arguments[of two_sample_channel 7 "[1, 2, 3]" "[]" "[1, 0]" "[0, 0]" "[5]"]
  show ?thesis by blast
qed

section \<open>Energy and the inversion of the transform on arrays\<close>


lemma energy_sum: "energy E = (\<Sum>n<length E. (cmod (E ! n))\<^sup>2)"
proof -
  have "energy E = sum_list (map (\<lambda>z. (cmod z)\<^sup>2) E)" by (simp add: energy_def)
  also have "\<dots> = (\<Sum>n = 0..<length E. (map (\<lambda>z. (cmod z)\<^sup>2) E) ! n)"
    by (simp only: sum_list_sum_nth length_map)
  also have "\<dots> = (\<Sum>n<length E. (cmod (E ! n))\<^sup>2)"
    by (simp add: atLeast0LessThan)
  finally show ?thesis .
qed

lemma energy_dft: "energy (dft E) = real (length E) * energy E"
proof -
  have "energy (dft E) = (\<Sum>k<length E. (cmod (dft_coeff E k))\<^sup>2)"
    by (simp add: energy_sum dft_def)
  also have "\<dots> = real (length E) * (\<Sum>n<length E. (cmod (E ! n))\<^sup>2)"
    unfolding dft_coeff_def by (rule parseval_neg)
  finally show ?thesis by (simp add: energy_sum)
qed

lemma energy_idft: "energy (idft G) * real (length G) = energy G"
proof (cases "G = []")
  case True
  then show ?thesis by (simp add: energy_def idft_def)
next
  case False
  let ?N = "length G"
  have N: "real ?N > 0" using False by simp
  have "energy (idft G) = (\<Sum>n<?N. (cmod (idft_coeff G n))\<^sup>2)"
    by (simp add: energy_sum idft_def)
  also have "\<dots> = (\<Sum>n<?N. (cmod (\<Sum>k<?N. G ! k * cis (2 * pi * real n * real k / real ?N)))\<^sup>2 / (real ?N)\<^sup>2)"
    by (rule sum.cong[OF refl]) (simp add: idft_coeff_def norm_divide power_divide mult.commute mult.left_commute)
  also have "\<dots> = (\<Sum>n<?N. (cmod (\<Sum>k<?N. G ! k * cis (2 * pi * real n * real k / real ?N)))\<^sup>2) / (real ?N)\<^sup>2"
    by (simp add: sum_divide_distrib)
  also have "\<dots> = real ?N * (\<Sum>k<?N. (cmod (G ! k))\<^sup>2) / (real ?N)\<^sup>2"
    by (simp only: parseval_pos)
  also have "\<dots> = energy G / real ?N" using N by (simp add: energy_sum power2_eq_square)
  finally show ?thesis using N by simp
qed

lemma exponent_form:
  fixes a w d b v :: real
  shows "- \<i> * of_real a * of_real w * of_real d - \<i> * of_real b * of_real v * of_real d
         = \<i> * complex_of_real (- (a * w * d) - b * v * d)"
  by (simp only: of_real_diff of_real_minus of_real_mult) (simp add: algebra_simps)

lemma dispersion_operator_unit:
  assumes "d \<in> set (dispersion_operator ch dz)"
  shows "cmod d = 1"
proof -
  from assms obtain w where
    d: "d = exp (- \<i> * of_real (beta2 ch / 2) * of_real (w ^ 2) * of_real dz
               - \<i> * of_real (beta3 ch / 6) * of_real (w ^ 3) * of_real dz)"
    unfolding dispersion_operator_def by (auto simp only: set_map)
  show ?thesis unfolding d exponent_form by (rule cmod_exp_i_real)
qed

lemma energy_pointwise:
  assumes "length G = length F" "\<And>k. k < length F \<Longrightarrow> cmod (G ! k) = cmod (F ! k)"
  shows "energy G = energy F"
  using assms by (simp add: energy_sum)

lemma np_imul_cases:
  assumes "np_imul F D = Inr G"
  shows "(length D = length F \<and> G = map2 (*) F D) \<or> (length D = 1 \<and> G = map (\<lambda>x. x * hd D) F)"
proof (cases "length D = length F")
  case True
  with assms show ?thesis by (simp add: np_imul_def)
next
  case False
  show ?thesis
  proof (cases "length D = 1")
    case True
    with False assms show ?thesis by (simp add: np_imul_def)
  next
    case False
    with \<open>length D \<noteq> length F\<close> assms show ?thesis by (simp add: np_imul_def)
  qed
qed

lemma np_imul_unit:
  assumes "np_imul F D = Inr G" "\<And>d. d \<in> set D \<Longrightarrow> cmod d = 1"
  shows "length G = length F \<and> energy G = energy F"
proof -
  from np_imul_cases[OF assms(1)] show ?thesis
  proof
    assume a: "length D = length F \<and> G = map2 (*) F D"
    then have len: "length G = length F" by simp
    have "cmod (G ! k) = cmod (F ! k)" if "k < length F" for k
    proof -
      have "D ! k \<in> set D" using that a by simp
      then have "cmod (D ! k) = 1" by (rule assms(2))
      then show ?thesis using that a by (simp add: norm_mult)
    qed
    with len show ?thesis using energy_pointwise[of G F] by blast
  next
    assume a: "length D = 1 \<and> G = map (\<lambda>x. x * hd D) F"
    then have "D \<noteq> []" by auto
    then have "hd D \<in> set D" by simp
    then have h: "cmod (hd D) = 1" by (rule assms(2))
    have len: "length G = length F" using a by simp
    have "cmod (G ! k) = cmod (F ! k)" if "k < length F" for k
      using that a h by (simp add: norm_mult)
    with len show ?thesis using energy_pointwise[of G F] by blast
  qed
qed

section \<open>Energy under the dispersion step\<close>

lemma dispersion_step_parts:
  assumes "dispersion_step ch dz E = Inr E'"
  shows "E \<noteq> [] \<and> (\<exists>G. np_imul (dft E) (dispersion_operator ch dz) = Inr G \<and> E' = idft G)"
proof -
  have ne: "E \<noteq> []"
  proof
    assume "E = []"
    then have "dispersion_step ch dz E = Inl ValueError" by (simp add: dispersion_step_def fft_def)
    with assms show False by simp
  qed
  then have f: "fft E = Inr (dft E)" by (simp add: fft_def)
  show ?thesis
  proof (cases "np_imul (dft E) (dispersion_operator ch dz)")
    case (Inl e)
    then have "dispersion_step ch dz E = Inl e" by (simp add: dispersion_step_def f)
    with assms show ?thesis by simp
  next
    case (Inr G)
    then have d: "dispersion_step ch dz E = ifft G" by (simp add: dispersion_step_def f)
    have "G \<noteq> []"
    proof
      assume "G = []"
      then have "ifft G = Inl ValueError" by (simp add: ifft_def)
      with d assms show False by simp
    qed
    then have "ifft G = Inr (idft G)" by (simp add: ifft_def)
    with d assms have "E' = idft G" by simp
    with Inr ne show ?thesis by blast
  qed
qed

lemma dispersion_step_energy:
  assumes "dispersion_step ch dz E = Inr E'"
  shows "energy E' = energy E"
proof -
  from dispersion_step_parts[OF assms] obtain G where ne: "E \<noteq> []"
    and G: "np_imul (dft E) (dispersion_operator ch dz) = Inr G" and E': "E' = idft G"
    by blast
  have unit: "\<And>d. d \<in> set (dispersion_operator ch dz) \<Longrightarrow> cmod d = 1"
    by (rule dispersion_operator_unit)
  from np_imul_unit[OF G unit]
  have lG: "length G = length (dft E)" and eG: "energy G = energy (dft E)" by blast+
  have lG': "length G = length E" using lG by simp
  have N: "real (length E) > 0" using ne by simp
  have "energy E' * real (length E) = energy G" using energy_idft[of G] lG' E' by simp
  also have "\<dots> = real (length E) * energy E" using eG energy_dft[of E] by simp
  finally have "energy E' * real (length E) = energy E * real (length E)" by (simp add: mult.commute)
  then show ?thesis using N by simp
qed


text \<open>
  C5. For every real step size every element of the dispersion operator has magnitude 1,
  and one dispersion step (forward transform, product with the operator, inverse
  transform) leaves the total energy of the field unchanged whenever it returns; it
  returns on every non-empty field of the grid's length.
\<close>

theorem dispersion_energy:
  "(\<forall>d \<in> set (dispersion_operator ch dz). cmod d = 1) \<and>
   (\<forall>E E'. dispersion_step ch dz E = Inr E' \<longrightarrow> energy E' = energy E) \<and>
   (\<forall>E. E \<noteq> [] \<and> length E = length (angular_freq ch)
          \<longrightarrow> (\<exists>E'. dispersion_step ch dz E = Inr E'))"
proof (intro conjI ballI allI impI)
  fix d assume "d \<in> set (dispersion_operator ch dz)"
  then show "cmod d = 1" by (rule dispersion_operator_unit)
next
  fix E E' assume "dispersion_step ch dz E = Inr E'"
  then show "energy E' = energy E" by (rule dispersion_step_energy)
next
  fix E :: "complex list" assume "E \<noteq> [] \<and> length E = length (angular_freq ch)"
  then have "dispersion_step ch dz E = Inr (idft (map2 (*) (dft E) (dispersion_operator ch dz)))"
    by (simp add: dispersion_step_ok)
  then show "\<exists>E'. dispersion_step ch dz E = Inr E'" by blast
qed

theorem dispersion_energy_witness:
  "\<exists>E'. dispersion_step two_sample_channel (1 / 10) [1, \<i>] = Inr E' \<and> energy E' = energy [1, \<i>]"
proof -
  have "[1, \<i>] \<noteq> [] \<and> length [1, \<i>] = length (angular_freq two_sample_channel)"
    by (simp add: two_sample_channel_def)
  with dispersion_energy[of two_sample_channel "1 / 10"] show ?thesis by blast
qed


section \<open>The null channel\<close>

lemma fftfreq_grid_length:
  assumes "0 < N"
  shows "length ([0 .. (N - 1) div 2] @ [- (N div 2) .. -1]) = nat N"
proof -
  have "nat ((N - 1) div 2 - 0 + 1) + nat (- 1 - - (N div 2) + 1) = nat N"
    using assms by (simp add: nat_add_distrib[symmetric])
  then show ?thesis by (simp add: length_upto)
qed

lemma init_fields:
  assumes "init tline L a b2 b3 dg g N dz = Inr ch"
  shows "0 < N" "fiber_length ch = L"
    "attenuation ch = (if 10 powr (- a / 10) \<le> float_tiny then 0 else 10 powr (- a / 10))"
    "beta2 ch = b2 * (1 / 10 ^ 24)" "beta3 ch = b3 * (1 / 10 ^ 36)"
    "dg_delay ch = dg * (1 / 10 ^ 12)" "gamma ch = g" "fft_samples ch = N"
    "step_size ch = dz" "length (angular_freq ch) = nat N" "timeline ch = tline"
proof -
  from assms have N: "0 < N" by (simp add: init_Inr_iff)
  then show "0 < N" .
  from assms show "fiber_length ch = L"
    "attenuation ch = (if 10 powr (- a / 10) \<le> float_tiny then 0 else 10 powr (- a / 10))"
    "beta2 ch = b2 * (1 / 10 ^ 24)" "beta3 ch = b3 * (1 / 10 ^ 36)"
    "dg_delay ch = dg * (1 / 10 ^ 12)" "gamma ch = g" "fft_samples ch = N"
    "step_size ch = dz" "timeline ch = tline"
    by (simp_all add: init_Inr_iff)
  from assms have "angular_freq ch = map (\<lambda>f. 2 * pi * f)
                        (map (\<lambda>i. of_int i * (1 / (of_int N * (1 / 10 ^ 12))))
                             ([0 .. (N - 1) div 2] @ [- (N div 2) .. -1]))"
    by (simp add: init_Inr_iff)
  then have "length (angular_freq ch) = length ([0 .. (N - 1) div 2] @ [- (N div 2) .. -1])"
    by (simp only: length_map)
  then show "length (angular_freq ch) = nat N" using fftfreq_grid_length[OF N] by simp
qed













section \<open>The constructor\<close>

lemma float_pow_10:
  "float_pow 10 x = (if float_top \<le> 10 powr x then Inl OverflowError
                     else Inr (if 10 powr x \<le> float_tiny then 0 else 10 powr x))"
  using float_top_gt float_tiny_lt by (simp add: float_pow_def float_range_def)

text \<open>
  C6, as stated, fails: the constructor does reject a value. With the default
  coefficients and \<open>fft_samples = 0\<close> the call of \<^verbatim>\<open>fftfreq\<close> divides by zero and the
  constructor raises.
\<close>
theorem init_rejects_zero_samples:
  "init () 50 (1 / 5) (- (2127 / 100)) (3 / 25) (1 / 10) (13 / 10) 0 (1 / 10) = Inl ZeroDivisionError"
  by (simp add: init_def float_pow_default fftfreq_def float_top_def)

text \<open>
  C6, amended. Whenever the constructor returns, the channel stores \<open>10 powr (- a / 10)\<close>
  for the attenuation (\<^verbatim>\<open>0.0\<close> when that power is below the doubles), the inputs times
  \<open>1e-24\<close>, \<open>1e-36\<close> and \<open>1e-12\<close> for \<open>beta2\<close>, \<open>beta3\<close> and the group delay, and
  \<open>gamma\<close>, \<open>fft_samples\<close>, \<open>fiber_length\<close>, \<open>step_size\<close> as supplied. It returns for
  every fiber length, step size and coefficient when the sample count is positive (and
  below \<open>float_top\<close>) and the power \<open>10 powr (- a / 10)\<close> is above \<open>float_tiny\<close> and
  below \<open>float_top\<close>. It rejects an attenuation whose power reaches \<open>float_top\<close>
  (\<^verbatim>\<open>OverflowError\<close>, whatever the other values) and, when the power is below
  \<open>float_top\<close>, a sample count of magnitude \<open>float_top\<close> or more (\<^verbatim>\<open>OverflowError\<close>),
  a sample count of zero (\<^verbatim>\<open>ZeroDivisionError\<close>) and a negative sample count above
  \<open>- float_top\<close> (\<^verbatim>\<open>ValueError\<close>).
\<close>
theorem init_conversions:
  "(0 < N \<and> of_int N < float_top \<and> float_tiny < 10 powr (- a / 10) \<and> 10 powr (- a / 10) < float_top
      \<longrightarrow> (\<exists>ch. init tline L a b2 b3 dg g N dz = Inr ch \<and>
             attenuation ch = 10 powr (- a / 10) \<and> beta2 ch = b2 * (1 / 10 ^ 24) \<and>
             beta3 ch = b3 * (1 / 10 ^ 36) \<and> dg_delay ch = dg * (1 / 10 ^ 12) \<and>
             gamma ch = g \<and> fft_samples ch = N \<and> fiber_length ch = L \<and> step_size ch = dz)) \<and>
   (\<forall>ch. init tline L a b2 b3 dg g N dz = Inr ch
      \<longrightarrow> attenuation ch = (if 10 powr (- a / 10) \<le> float_tiny then 0 else 10 powr (- a / 10)) \<and>
          beta2 ch = b2 * (1 / 10 ^ 24) \<and> beta3 ch = b3 * (1 / 10 ^ 36) \<and>
          dg_delay ch = dg * (1 / 10 ^ 12) \<and> gamma ch = g \<and> fft_samples ch = N \<and>
          fiber_length ch = L \<and> step_size ch = dz) \<and>
   (float_top \<le> 10 powr (- a / 10) \<longrightarrow> init tline L a b2 b3 dg g N dz = Inl OverflowError) \<and>
   (10 powr (- a / 10) < float_top \<and> float_top \<le> \<bar>of_int N\<bar>
      \<longrightarrow> init tline L a b2 b3 dg g N dz = Inl OverflowError) \<and>
   (10 powr (- a / 10) < float_top \<and> N = 0
      \<longrightarrow> init tline L a b2 b3 dg g N dz = Inl ZeroDivisionError) \<and>
   (10 powr (- a / 10) < float_top \<and> N < 0 \<and> - float_top < of_int N
      \<longrightarrow> init tline L a b2 b3 dg g N dz = Inl ValueError)"
proof (intro conjI impI allI)
  assume "0 < N \<and> of_int N < float_top \<and> float_tiny < 10 powr (- a / 10) \<and> 10 powr (- a / 10) < float_top"
  then show "\<exists>ch. init tline L a b2 b3 dg g N dz = Inr ch \<and>
             attenuation ch = 10 powr (- a / 10) \<and> beta2 ch = b2 * (1 / 10 ^ 24) \<and>
             beta3 ch = b3 * (1 / 10 ^ 36) \<and> dg_delay ch = dg * (1 / 10 ^ 12) \<and>
             gamma ch = g \<and> fft_samples ch = N \<and> fiber_length ch = L \<and> step_size ch = dz"
    by (simp add: init_Inr_iff)
next
  fix ch assume h: "init tline L a b2 b3 dg g N dz = Inr ch"
  note f = init_fields[OF h]
  show "attenuation ch = (if 10 powr (- a / 10) \<le> float_tiny then 0 else 10 powr (- a / 10))"
    "beta2 ch = b2 * (1 / 10 ^ 24)" "beta3 ch = b3 * (1 / 10 ^ 36)"
    "dg_delay ch = dg * (1 / 10 ^ 12)" "gamma ch = g" "fft_samples ch = N"
    "fiber_length ch = L" "step_size ch = dz"
    by (rule f)+
next
  assume "float_top \<le> 10 powr (- a / 10)"
  then show "init tline L a b2 b3 dg g N dz = Inl OverflowError"
    by (simp add: init_def float_pow_10)
next
  assume "10 powr (- a / 10) < float_top \<and> float_top \<le> \<bar>of_int N\<bar>"
  then show "init tline L a b2 b3 dg g N dz = Inl OverflowError"
    by (simp add: init_def float_pow_10 fftfreq_def)
next
  assume "10 powr (- a / 10) < float_top \<and> N = 0"
  then show "init tline L a b2 b3 dg g N dz = Inl ZeroDivisionError"
    using float_top_gt by (simp add: init_def float_pow_10 fftfreq_def)
next
  assume "10 powr (- a / 10) < float_top \<and> N < 0 \<and> - float_top < of_int N"
  then show "init tline L a b2 b3 dg g N dz = Inl ValueError"
    by (simp add: init_def float_pow_10 fftfreq_def)
qed

theorem init_conversions_witness:
  "\<exists>ch. init () 50 (1 / 5) (- (2127 / 100)) (3 / 25) (1 / 10) (13 / 10) 1024 (1 / 10) = Inr ch \<and>
        attenuation ch = 10 powr (- (1 / 5) / 10) \<and> beta2 ch = - (2127 / 100) * (1 / 10 ^ 24) \<and>
        beta3 ch = 3 / 25 * (1 / 10 ^ 36) \<and> dg_delay ch = 1 / 10 * (1 / 10 ^ 12) \<and>
        gamma ch = 13 / 10 \<and> fft_samples ch = 1024 \<and> fiber_length ch = 50 \<and> step_size ch = 1 / 10"
proof -
  have h: "(0::int) < 1024 \<and> real_of_int 1024 < float_top \<and>
           float_tiny < 10 powr (- (1 / 5) / 10) \<and> 10 powr (- (1 / 5) / 10) < float_top"
    using default_attenuation float_tiny_lt float_top_gt by (simp add: float_top_def)
  from init_conversions[where tline = "()" and L = 50 and a = "1 / 5" and ?b2.0 = "- (2127 / 100)"
      and ?b3.0 = "3 / 25" and dg = "1 / 10" and g = "13 / 10" and N = 1024 and dz = "1 / 10"] h
  show ?thesis by blast
qed


section \<open>The number of iterations\<close>


lemma floor_default_quotient: "\<lfloor>50 / tenth\<rfloor> = 499"
  by (simp add: tenth_def)




section \<open>Arrays of another length\<close>












end
